theory Spec2Isabelle
  imports Main "HOL-Library.Multiset"
begin

section \<open>Text primitives of the host language\<close>

text \<open>
  The script \<^verbatim>\<open>split_schema.py\<close> works on Python \<^verbatim>\<open>str\<close> values. A text is modelled as a
  \<^typ>\<open>string\<close>; a character is a code point below 256, so the model covers documents written
  in ASCII or Latin-1. Console output (\<^verbatim>\<open>print\<close>) is not modelled.
\<close>

definition newline :: char where
  "newline = CHR 0x0A"

text \<open>
  \<^verbatim>\<open>str.isspace\<close> and the regex class \<^verbatim>\<open>\s\<close> agree on these code points: TAB, LF, VT, FF, CR,
  the separators 0x1C to 0x1F, the space, NEL (0x85) and NBSP (0xA0).
\<close>

definition is_space :: "char \<Rightarrow> bool" where
  "is_space c = (let n = (of_char c :: nat) in
     (9 \<le> n \<and> n \<le> 13) \<or> (28 \<le> n \<and> n \<le> 32) \<or> n = 133 \<or> n = 160)"

text \<open>
  The regex class \<^verbatim>\<open>\w\<close> on a \<^verbatim>\<open>str\<close> pattern: digits, letters, the underscore, and the
  alphanumeric code points of Latin-1.
\<close>

definition is_word :: "char \<Rightarrow> bool" where
  "is_word c = (let n = (of_char c :: nat) in
     (48 \<le> n \<and> n \<le> 57) \<or> (65 \<le> n \<and> n \<le> 90) \<or> n = 95 \<or> (97 \<le> n \<and> n \<le> 122)
     \<or> n = 170 \<or> n = 178 \<or> n = 179 \<or> n = 181 \<or> n = 185 \<or> n = 186
     \<or> (188 \<le> n \<and> n \<le> 190) \<or> (192 \<le> n \<and> n \<le> 214) \<or> (216 \<le> n \<and> n \<le> 246)
     \<or> (248 \<le> n \<and> n \<le> 255))"

text \<open>\<^verbatim>\<open>s.strip()\<close>: whitespace removed at both ends.\<close>

definition strip :: "string \<Rightarrow> string" where
  "strip s = rev (dropWhile is_space (rev (dropWhile is_space s)))"

text \<open>\<^verbatim>\<open>s.startswith(p)\<close>.\<close>

definition startswith :: "string \<Rightarrow> string \<Rightarrow> bool" where
  "startswith s p = (take (length p) s = p)"

text \<open>\<^verbatim>\<open>sub in s\<close>: \<open>sub\<close> occurs in \<open>s\<close> as a contiguous piece.\<close>

fun str_in :: "string \<Rightarrow> string \<Rightarrow> bool" where
  "str_in sub [] = (sub = [])"
| "str_in sub (x # xs) = (startswith (x # xs) sub \<or> str_in sub xs)"

text \<open>
  \<^verbatim>\<open>s.rfind(c)\<close> for a one-character needle: the highest index holding \<open>c\<close>, or \<open>-1\<close>.
\<close>

fun rfind :: "string \<Rightarrow> char \<Rightarrow> int" where
  "rfind [] c = - 1"
| "rfind (x # xs) c =
     (let r = rfind xs c in if r \<noteq> - 1 then r + 1 else if x = c then 0 else - 1)"

text \<open>\<^verbatim>\<open>sep.join(xs)\<close>.\<close>

fun join :: "string \<Rightarrow> string list \<Rightarrow> string" where
  "join sep [] = []"
| "join sep [x] = x"
| "join sep (x # y # ys) = x @ sep @ join sep (y # ys)"

section \<open>Regular expressions\<close>

text \<open>
  The constructs of \<^verbatim>\<open>re\<close> that the script uses. \<open>Dot\<close> is \<^verbatim>\<open>.\<close> without \<^verbatim>\<open>DOTALL\<close> (anything but
  a line feed), \<open>Bol\<close> is \<^verbatim>\<open>^\<close> without \<^verbatim>\<open>MULTILINE\<close> (the start of the text only), \<open>WordB\<close> is
  \<^verbatim>\<open>\b\<close>, \<open>Ahead r\<close> is \<^verbatim>\<open>(?=r)\<close>.
\<close>

datatype rx =
    Eps
  | Chr char
  | Dot
  | Space
  | Word
  | Bol
  | WordB
  | Seq rx rx
  | Alt rx rx
  | Star rx
  | Ahead rx

fun word_opt :: "char option \<Rightarrow> bool" where
  "word_opt None = False"
| "word_opt (Some c) = is_word c"

fun next_char :: "string \<Rightarrow> char option" where
  "next_char [] = None"
| "next_char (x # xs) = Some x"

text \<open>
  A position in the text is the character before it (\<open>None\<close> at the start of the text) and
  the text that remains. \<open>ends r p s\<close> lists every position at which a match of \<open>r\<close> that
  starts at \<open>(p, s)\<close> can end, in the order in which a backtracking matcher tries them: the
  left branch of an alternative first, one more round of a star before leaving it. A round
  of a star that consumes nothing is not repeated.
\<close>

fun ends :: "rx \<Rightarrow> char option \<Rightarrow> string \<Rightarrow> (char option \<times> string) list" where
  "ends Eps p s = [(p, s)]"
| "ends (Chr c) p [] = []"
| "ends (Chr c) p (x # xs) = (if x = c then [(Some x, xs)] else [])"
| "ends Dot p [] = []"
| "ends Dot p (x # xs) = (if x \<noteq> newline then [(Some x, xs)] else [])"
| "ends Space p [] = []"
| "ends Space p (x # xs) = (if is_space x then [(Some x, xs)] else [])"
| "ends Word p [] = []"
| "ends Word p (x # xs) = (if is_word x then [(Some x, xs)] else [])"
| "ends Bol p s = (if p = None then [(p, s)] else [])"
| "ends WordB p s = (if word_opt p \<noteq> word_opt (next_char s) then [(p, s)] else [])"
| "ends (Seq a b) p s = concat (map (\<lambda>(p', s'). ends b p' s') (ends a p s))"
| "ends (Alt a b) p s = ends a p s @ ends b p s"
| "ends (Star a) p s =
     concat (map (\<lambda>(p', s'). ends (Star a) p' s')
                 (filter (\<lambda>(p', s'). length s' < length s) (ends a p s))) @ [(p, s)]"
| "ends (Ahead a) p s = (if ends a p s = [] then [] else [(p, s)])"

definition matches_at :: "rx \<Rightarrow> char option \<Rightarrow> string \<Rightarrow> bool" where
  "matches_at r p s = (ends r p s \<noteq> [])"

text \<open>\<^verbatim>\<open>re.search(r, s)\<close> as a truth value: some position of \<open>s\<close> starts a match.\<close>

fun search_from :: "rx \<Rightarrow> char option \<Rightarrow> string \<Rightarrow> bool" where
  "search_from r p [] = matches_at r p []"
| "search_from r p (x # xs) = (matches_at r p (x # xs) \<or> search_from r (Some x) xs)"

definition re_search :: "rx \<Rightarrow> string \<Rightarrow> bool" where
  "re_search r s = search_from r None s"

text \<open>
  \<^verbatim>\<open>re.split(r, s)\<close> for a pattern whose every match is empty, as a lookahead is. From
  Python 3.7 on the text is cut at every position where the pattern matches, the start and
  the end of the text included, and the search resumes one character further.
  \<open>split_walk r p acc s\<close> has read \<open>acc\<close> since the last cut and has \<open>s\<close> left.
\<close>

fun split_walk :: "rx \<Rightarrow> char option \<Rightarrow> string \<Rightarrow> string \<Rightarrow> string list" where
  "split_walk r p acc [] = (if matches_at r p [] then [acc, []] else [acc])"
| "split_walk r p acc (x # xs) =
     (if matches_at r p (x # xs) then acc # split_walk r (Some x) [x] xs
      else split_walk r (Some x) (acc @ [x]) xs)"

definition re_split :: "rx \<Rightarrow> string \<Rightarrow> string list" where
  "re_split r s = split_walk r None [] s"

text \<open>A literal text, \<^verbatim>\<open>r+\<close>, and the shape \<^verbatim>\<open>^literal rest\<close> of the patterns of the table.\<close>

fun lit :: "string \<Rightarrow> rx" where
  "lit [] = Eps"
| "lit (c # cs) = Seq (Chr c) (lit cs)"

definition Plus :: "rx \<Rightarrow> rx" where
  "Plus r = Seq r (Star r)"

definition anchored :: "string \<Rightarrow> rx \<Rightarrow> rx" where
  "anchored l rest = Seq Bol (Seq (lit l) rest)"

section \<open>Configuration\<close>

definition SOURCE_FILE :: string where
  "SOURCE_FILE = ''amplify/backend/api/kingsroom/schema.graphql''"

definition OUTPUT_DIR :: string where
  "OUTPUT_DIR = ''amplify/backend/api/kingsroom/schema''"

text \<open>The text spliced into the Game type: a line feed, then nineteen lines, each ended by one.\<close>

definition GAME_ADDITIONS :: string where
  "GAME_ADDITIONS = newline # concat (map (\<lambda>l. l @ [newline])
    [''  # === RECURRING GAME RELATIONSHIP (NEW) ==='',
     ''  # Link to the canonical recurring game (if this is a regular game instance)'',
     ''  recurringGameId: ID '',
     ''    @index(name: \"byRecurringGame\", sortKeyFields: [\"gameStartDateTime\"])'',
     ''  recurringGame: RecurringGame @belongsTo(fields: [\"recurringGameId\"])'',
     ''  '',
     ''  # === RECURRING GAME ASSIGNMENT (NEW) ==='',
     ''  recurringGameAssignmentConfidence: Float'',
     ''  recurringGameAssignmentStatus: RecurringGameAssignmentStatus '',
     ''    @default(value: \"PENDING_ASSIGNMENT\")'',
     ''  '',
     ''  # === SCHEDULE TRACKING (NEW) ==='',
     ''  wasScheduledInstance: Boolean @default(value: \"false\")'',
     ''  deviationNotes: String'',
     ''  '',
     ''  # === INSTANCE METADATA (NEW) ==='',
     ''  instanceNumber: Int '',
     ''  isReplacementInstance: Boolean @default(value: \"false\")'',
     ''  replacementReason: String''])"

text \<open>
  The table \<^verbatim>\<open>FILE_MAPPINGS\<close>, a dictionary in insertion order: file name, then its patterns.
  \<^verbatim>\<open>^type Entity\b\<close> is \<open>anchored ''type Entity'' WordB\<close>, \<^verbatim>\<open>^type GameCost\<close> is
  \<open>anchored ''type GameCost'' Eps\<close>, \<^verbatim>\<open>^type .*Response\<close> is
  \<open>anchored ''type '' (Seq (Star Dot) (lit ''Response''))\<close>.
\<close>

definition FILE_MAPPINGS :: "(string \<times> rx list) list" where
  "FILE_MAPPINGS =
    [(''10-entities.graphql'',
        [anchored ''type Entity'' WordB,
         anchored ''type BackgroundTask'' WordB]),
     (''20-venues.graphql'',
        [anchored ''type Venue'' WordB,
         anchored ''type VenueDetails'' WordB,
         anchored ''type VenueMetricsResult'' WordB,
         anchored ''type VenueMetricsPreview'' WordB,
         anchored ''input RecalculateVenueDetails'' Eps]),
     (''30-games.graphql'',
        [anchored ''type Game'' WordB,
         anchored ''type GameCost'' Eps,
         anchored ''type GameFinancialSnapshot'' Eps,
         anchored ''type TournamentStructure'' Eps,
         anchored ''type TournamentLevelData'' Eps,
         anchored ''type CashStructure'' Eps,
         anchored ''type RakeStructure'' Eps,
         anchored ''type Consolidation'' Eps,
         anchored ''input SaveGame'' Eps,
         anchored ''input GamePreview'' Eps]),
     (''40-tournaments.graphql'',
        [anchored ''type TournamentSeries'' Eps]),
     (''50-players.graphql'',
        [anchored ''type Player'' Eps,
         anchored ''type KnownPlayerIdentity'' Eps,
         anchored ''type Ticket'' Eps,
         anchored ''type MarketingMessage'' Eps,
         anchored ''type PlayerMarketing'' Eps]),
     (''60-financials.graphql'',
        [anchored ''type CostItem'' Eps,
         anchored ''type GameCostLineItem'' Eps]),
     (''80-scrapers.graphql'',
        [anchored ''type Scraper'' Eps,
         anchored ''type Scrape'' Eps,
         anchored ''type S3'' Eps,
         anchored ''type DataSync'' Eps,
         anchored ''input Scrape'' Eps,
         anchored ''input SaveTournament'' Eps,
         anchored ''type Gap'' Eps,
         anchored ''type CachingStats'' Eps]),
     (''85-social.graphql'',
        [anchored ''type Social'' Eps,
         anchored ''input Social'' Eps,
         anchored ''input AddSocial'' Eps,
         anchored ''input UpdateSocial'' Eps,
         anchored ''input SchedulePost'' Eps]),
     (''90-staff.graphql'',
        [anchored ''type User'' Eps,
         anchored ''type Staff'' Eps,
         anchored ''type Asset'' Eps,
         anchored ''input CreateUser'' Eps,
         anchored ''input UpdateUser'' Eps]),
     (''99-mutations.graphql'',
        [anchored ''type Query'' Eps,
         anchored ''type Mutation'' Eps,
         anchored ''type Subscription'' Eps,
         anchored ''type '' (Seq (Star Dot) (lit ''Response'')),
         anchored ''type '' (Seq (Star Dot) (lit ''Connection''))])]"

text \<open>
  The pattern the document is split at:
  \<^verbatim>\<open>(?=\n(?:#.*\n)*\s*(?:type|input|enum|interface|union|scalar)\s+\w+)\<close>.
\<close>

definition split_pattern :: rx where
  "split_pattern =
     Ahead (Seq (Chr newline)
           (Seq (Star (Seq (Chr CHR ''#'') (Seq (Star Dot) (Chr newline))))
           (Seq (Star Space)
           (Seq (Alt (lit ''type'') (Alt (lit ''input'') (Alt (lit ''enum'')
                (Alt (lit ''interface'') (Alt (lit ''union'') (lit ''scalar''))))))
           (Seq (Plus Space) (Plus Word))))))"

section \<open>The classification pass\<close>

text \<open>
  \<^verbatim>\<open>files_content\<close> is a dictionary from file name to the list of blocks assigned to it;
  its insertion order decides the order of the written files, so it is an association list.
\<close>

type_synonym files = "(string \<times> string list) list"

datatype error = KeyError string | OSError string

text \<open>\<^verbatim>\<open>d[k].append(v)\<close>: a missing key raises \<^verbatim>\<open>KeyError\<close>.\<close>

fun dict_append :: "files \<Rightarrow> string \<Rightarrow> string \<Rightarrow> error + files" where
  "dict_append [] k v = Inl (KeyError k)"
| "dict_append ((k', vs) # rest) k v =
     (if k' = k then Inr ((k', vs @ [v]) # rest)
      else case dict_append rest k v of
             Inl e \<Rightarrow> Inl e
           | Inr rest' \<Rightarrow> Inr ((k', vs) # rest'))"

text \<open>\<^verbatim>\<open>d[k] = v\<close>: a present key keeps its place, a new key goes last.\<close>

fun dict_set :: "files \<Rightarrow> string \<Rightarrow> string list \<Rightarrow> files" where
  "dict_set [] k v = [(k, v)]"
| "dict_set ((k', vs) # rest) k v =
     (if k' = k then (k', v) # rest else (k', vs) # dict_set rest k v)"

text \<open>
  The dictionary before the pass: an empty list for every key of the table, then the
  placeholder \<^verbatim>\<open>00-enums.graphql\<close>.
\<close>

definition files_content_init :: files where
  "files_content_init =
     dict_set (map (\<lambda>(k, patterns). (k, [])) FILE_MAPPINGS) ''00-enums.graphql'' []"

text \<open>The splice of the fragment before the last closing brace.\<close>

definition patch_game :: "string \<Rightarrow> string" where
  "patch_game block =
     (let last_brace_idx = rfind block CHR ''}'' in
      if last_brace_idx \<noteq> - 1
      then take (nat last_brace_idx) block @ GAME_ADDITIONS @ drop (nat last_brace_idx) block
      else block)"

text \<open>
  The inner loop over the patterns of one file name, and the outer loop over the table. Each
  returns the flag \<^verbatim>\<open>assigned\<close> and the dictionary; a match appends and leaves both loops.
\<close>

fun match_patterns :: "string \<Rightarrow> rx list \<Rightarrow> string \<Rightarrow> files \<Rightarrow> error + (bool \<times> files)" where
  "match_patterns filename [] block fc = Inr (False, fc)"
| "match_patterns filename (pat # pats) block fc =
     (if re_search pat block then
        (let block' = (if str_in ''type Game @model'' block \<and> filename = ''30-games.graphql''
                       then patch_game block else block)
         in case dict_append fc filename block' of
              Inl e \<Rightarrow> Inl e
            | Inr fc' \<Rightarrow> Inr (True, fc'))
      else match_patterns filename pats block fc)"

fun match_mappings :: "(string \<times> rx list) list \<Rightarrow> string \<Rightarrow> files \<Rightarrow> error + (bool \<times> files)" where
  "match_mappings [] block fc = Inr (False, fc)"
| "match_mappings ((filename, patterns) # rest) block fc =
     (case match_patterns filename patterns block fc of
        Inl e \<Rightarrow> Inl e
      | Inr (assigned, fc') \<Rightarrow>
          if assigned then Inr (True, fc') else match_mappings rest block fc')"

text \<open>The heuristic for a block that no pattern matched.\<close>

definition fallback :: "string \<Rightarrow> files \<Rightarrow> error + files" where
  "fallback block fc =
     (if str_in ''Game'' block then dict_append fc ''30-games.graphql'' block
      else if str_in ''Player'' block then dict_append fc ''50-players.graphql'' block
      else if str_in ''Venue'' block then dict_append fc ''20-venues.graphql'' block
      else dict_append fc ''99-mutations.graphql'' block)"

text \<open>The body of the loop over the blocks, and the loop.\<close>

definition process_block :: "files \<Rightarrow> string \<Rightarrow> error + files" where
  "process_block fc raw =
     (let block = strip raw in
      if block = [] then Inr fc
      else if startswith block ''enum '' then Inr fc
      else case match_mappings FILE_MAPPINGS block fc of
             Inl e \<Rightarrow> Inl e
           | Inr (assigned, fc') \<Rightarrow> if \<not> assigned then fallback block fc' else Inr fc')"

fun process_blocks :: "files \<Rightarrow> string list \<Rightarrow> error + files" where
  "process_blocks fc [] = Inr fc"
| "process_blocks fc (raw # raws) =
     (case process_block fc raw of
        Inl e \<Rightarrow> Inl e
      | Inr fc' \<Rightarrow> process_blocks fc' raws)"

text \<open>From the text of the document to the dictionary that the writer receives.\<close>

definition classify_document :: "string \<Rightarrow> error + files" where
  "classify_document content = process_blocks files_content_init (re_split split_pattern content)"

section \<open>The run: setup, reading, writing\<close>

text \<open>
  The file system is the environment of the run: whether \<^verbatim>\<open>OUTPUT_DIR\<close> exists, whether
  \<^verbatim>\<open>os.makedirs\<close> succeeds, what opening and reading \<^verbatim>\<open>SOURCE_FILE\<close> yields, and which paths
  can be opened for writing. The run is observed through the trace of its effects.
\<close>

datatype read_result = Content string | FileNotFound | ReadFailure

record env =
  dir_exists :: bool
  makedirs_ok :: bool
  source :: read_result
  writable :: "string \<Rightarrow> bool"

datatype event = MadeDirs string | ReadAttempt string | Wrote string string

text \<open>
  \<open>Completed\<close>: the function ran to its end. \<open>Returned\<close>: the \<^verbatim>\<open>return\<close> of the handler of
  \<^verbatim>\<open>FileNotFoundError\<close>. \<open>Raised\<close>: an exception left the function.
\<close>

datatype outcome = Completed | Returned | Raised error

text \<open>\<^verbatim>\<open>os.path.join(a, b)\<close> on a POSIX system.\<close>

definition path_join :: "string \<Rightarrow> string \<Rightarrow> string" where
  "path_join a b =
     (if startswith b ''/'' then b
      else if a = [] \<or> last a = CHR ''/'' then a @ b
      else a @ ''/'' @ b)"

text \<open>The three \<^verbatim>\<open>f.write\<close> calls for one file.\<close>

definition file_text :: "string \<Rightarrow> string list \<Rightarrow> string" where
  "file_text filename blocks =
     (''# '' @ filename @ [newline])
     @ (''# =========================================='' @ [newline, newline])
     @ join [newline, newline] blocks"

text \<open>The loop over \<^verbatim>\<open>files_content.items()\<close>; a path that cannot be opened ends the run.\<close>

fun write_files :: "(string \<Rightarrow> bool) \<Rightarrow> files \<Rightarrow> outcome \<times> event list" where
  "write_files w [] = (Completed, [])"
| "write_files w ((filename, blocks) # rest) =
     (if filename = ''00-enums.graphql'' then write_files w rest
      else
        (let full_path = path_join OUTPUT_DIR filename in
         if \<not> w full_path then (Raised (OSError full_path), [])
         else
           (let (oc, evs) = write_files w rest
            in (oc, Wrote full_path (file_text filename blocks) # evs))))"

definition split_schema :: "env \<Rightarrow> outcome \<times> event list" where
  "split_schema e =
     (if \<not> dir_exists e \<and> \<not> makedirs_ok e then (Raised (OSError OUTPUT_DIR), [])
      else
        (let setup = (if \<not> dir_exists e then [MadeDirs OUTPUT_DIR] else []) in
         case source e of
           FileNotFound \<Rightarrow> (Returned, setup @ [ReadAttempt SOURCE_FILE])
         | ReadFailure \<Rightarrow> (Raised (OSError SOURCE_FILE), setup @ [ReadAttempt SOURCE_FILE])
         | Content content \<Rightarrow>
             (case classify_document content of
                Inl err \<Rightarrow> (Raised err, setup @ [ReadAttempt SOURCE_FILE])
              | Inr fc \<Rightarrow>
                  (let (oc, evs) = write_files (writable e) fc
                   in (oc, setup @ [ReadAttempt SOURCE_FILE] @ evs)))))"

section \<open>Notions the properties are stated with\<close>

text \<open>The list stored under a key, and the dictionary with one more block under a key.\<close>

definition blocks_of :: "files \<Rightarrow> string \<Rightarrow> string list" where
  "blocks_of fc k = (case map_of fc k of Some bs \<Rightarrow> bs | None \<Rightarrow> [])"

definition appended :: "string \<Rightarrow> string \<Rightarrow> files \<Rightarrow> files" where
  "appended k v fc = map (\<lambda>(k', vs). (k', if k' = k then vs @ [v] else vs)) fc"

text \<open>
  The classifier as the specification words it: the first category, in the order of the
  table, one of whose patterns matches the block.
\<close>

definition first_match :: "(string \<times> rx list) list \<Rightarrow> string \<Rightarrow> string option" where
  "first_match table block =
     map_option fst
       (find (\<lambda>(filename, patterns). list_ex (\<lambda>pat. re_search pat block) patterns) table)"

text \<open>The category of the fallback resolver: the first keyword that the block contains.\<close>

definition fallback_name :: "string \<Rightarrow> string" where
  "fallback_name block =
     (if str_in ''Game'' block then ''30-games.graphql''
      else if str_in ''Player'' block then ''50-players.graphql''
      else if str_in ''Venue'' block then ''20-venues.graphql''
      else ''99-mutations.graphql'')"

text \<open>
  The category a block goes to, and the text stored for it: the block itself, or the
  patched block when the classifier chose the games category and the marker occurs.
\<close>

definition destination :: "string \<Rightarrow> string" where
  "destination block =
     (case first_match FILE_MAPPINGS block of Some k \<Rightarrow> k | None \<Rightarrow> fallback_name block)"

definition emitted :: "string \<Rightarrow> string" where
  "emitted block =
     (if first_match FILE_MAPPINGS block = Some ''30-games.graphql''
         \<and> str_in ''type Game @model'' block
      then patch_game block else block)"

definition assign :: "files \<Rightarrow> string \<Rightarrow> files" where
  "assign fc block = appended (destination block) (emitted block) fc"

text \<open>
  The blocks of a document that the pass retains, in the order of the document: trimmed,
  not empty, not starting with \<^verbatim>\<open>enum \<close>.
\<close>

definition kept :: "string list \<Rightarrow> string list" where
  "kept raws = filter (\<lambda>b. b \<noteq> [] \<and> \<not> startswith b ''enum '') (map strip raws)"

definition all_keys :: "string list" where
  "all_keys = map fst FILE_MAPPINGS @ [''00-enums.graphql'']"



section \<open>Facts about the dictionary and the loops\<close>

lemma map_fst_appended [simp]: "map fst (appended k v fc) = map fst fc"
  by (induction fc) (auto simp: appended_def)

lemma dict_append_appended:
  "distinct (map fst fc) \<Longrightarrow> k \<in> set (map fst fc) \<Longrightarrow> dict_append fc k v = Inr (appended k v fc)"
proof (induction fc)
  case Nil
  then show ?case by simp
next
  case (Cons a fc)
  obtain k' vs where a: "a = (k', vs)" by (cases a)
  show ?case
  proof (cases "k' = k")
    case True
    then have "k \<notin> set (map fst fc)" using Cons.prems a by auto
    then have "appended k v fc = fc"
      by (induction fc) (auto simp: appended_def)
    then show ?thesis using True a by (simp add: appended_def)
  next
    case False
    then show ?thesis using Cons a by (auto simp: appended_def)
  qed
qed

lemma blocks_of_appended:
  "blocks_of (appended k v fc) k' =
     (if k' = k \<and> k \<in> set (map fst fc) then blocks_of fc k' @ [v] else blocks_of fc k')"
  by (induction fc) (force simp: appended_def blocks_of_def)+

lemma all_keys_eval: "all_keys = [''10-entities.graphql'', ''20-venues.graphql'', ''30-games.graphql'',
  ''40-tournaments.graphql'', ''50-players.graphql'', ''60-financials.graphql'', ''80-scrapers.graphql'',
  ''85-social.graphql'', ''90-staff.graphql'', ''99-mutations.graphql'', ''00-enums.graphql'']"
  by (simp add: all_keys_def FILE_MAPPINGS_def)

lemma keys_init: "map fst files_content_init = all_keys"
  unfolding all_keys_eval by (simp add: files_content_init_def FILE_MAPPINGS_def)

lemma distinct_all_keys: "distinct all_keys"
  unfolding all_keys_eval by simp

lemma match_patterns_char:
  "match_patterns filename pats block fc =
     (if list_ex (\<lambda>pat. re_search pat block) pats
      then (case dict_append fc filename
                   (if str_in ''type Game @model'' block \<and> filename = ''30-games.graphql''
                    then patch_game block else block) of
              Inl e \<Rightarrow> Inl e | Inr fc' \<Rightarrow> Inr (True, fc'))
      else Inr (False, fc))"
  by (induction pats) (auto simp: Let_def)

lemma match_mappings_char:
  assumes "distinct (map fst fc)" "set (map fst table) \<subseteq> set (map fst fc)"
  shows "match_mappings table block fc =
     (case first_match table block of
        None \<Rightarrow> Inr (False, fc)
      | Some k \<Rightarrow> Inr (True, appended k
           (if str_in ''type Game @model'' block \<and> k = ''30-games.graphql''
            then patch_game block else block) fc))"
  using assms
proof (induction table)
  case Nil
  then show ?case by (simp add: first_match_def)
next
  case (Cons a table)
  obtain filename patterns where a: "a = (filename, patterns)" by (cases a)
  have fn: "filename \<in> set (map fst fc)" using Cons.prems a by auto
  show ?case
  proof (cases "list_ex (\<lambda>pat. re_search pat block) patterns")
    case True
    then show ?thesis
      using a fn Cons.prems(1)
      by (simp add: match_patterns_char first_match_def dict_append_appended)
  next
    case False
    then have "match_patterns filename patterns block fc = Inr (False, fc)"
      by (simp add: match_patterns_char)
    moreover have "first_match (a # table) block = first_match table block"
      using False a by (simp add: first_match_def)
    ultimately show ?thesis using Cons a by simp
  qed
qed

section \<open>Facts about the patterns of the table\<close>

lemma startswith_Nil [simp]: "startswith s []"
  by (simp add: startswith_def)

lemma startswith_Nil_left [simp]: "startswith [] p = (p = [])"
  by (auto simp: startswith_def)

lemma startswith_Cons [simp]: "startswith (x # xs) (c # cs) = (x = c \<and> startswith xs cs)"
  by (simp add: startswith_def)

lemma startswith_trans: "startswith s l \<Longrightarrow> startswith l p \<Longrightarrow> startswith s p"
  unfolding startswith_def
  by (metis (no_types, opaque_lifting) append_eq_conv_conj append_take_drop_id append.assoc)

lemma ends_lit:
  "ends (lit l) p s =
     (if startswith s l then [(if l = [] then p else Some (last l), drop (length l) s)] else [])"
proof (induction l arbitrary: p s)
  case Nil
  then show ?case by simp
next
  case (Cons c cs)
  then show ?case by (cases s) auto
qed

lemma search_from_Bol: "search_from (Seq Bol r) (Some x) s = False"
  by (induction s arbitrary: x) (auto simp: matches_at_def)

lemma re_search_anchored:
  "re_search (anchored l rest) s =
     (startswith s l \<and> matches_at rest (if l = [] then None else Some (last l)) (drop (length l) s))"
  by (cases s) (auto simp: re_search_def anchored_def matches_at_def search_from_Bol ends_lit)

lemma table_patterns:
  "\<forall>(k, ps) \<in> set FILE_MAPPINGS. \<forall>p \<in> set ps.
     \<exists>l rest. p = anchored l rest \<and> (startswith l ''type '' \<or> startswith l ''input '')"
  unfolding FILE_MAPPINGS_def
  apply simp
  apply (intro conjI)
  apply (rule exI, rule conjI, rule exI, rule refl, simp)+
  done

lemma first_match_Some:
  "first_match table block = Some k \<Longrightarrow>
     \<exists>ps p. (k, ps) \<in> set table \<and> p \<in> set ps \<and> re_search p block"
  unfolding first_match_def
  by (auto simp: find_Some_iff list_ex_iff dest!: nth_mem) (metis nth_mem prod.collapse)+

lemma first_match_declaration:
  assumes "first_match FILE_MAPPINGS block = Some k"
  shows "startswith block ''type '' \<or> startswith block ''input ''"
proof -
  obtain ps p where kp: "(k, ps) \<in> set FILE_MAPPINGS" "p \<in> set ps" "re_search p block"
    using first_match_Some [OF assms] by blast
  then obtain l rest where p: "p = anchored l rest"
      and l: "startswith l ''type '' \<or> startswith l ''input ''"
    using table_patterns by fastforce
  from kp(3) p have "startswith block l" by (simp add: re_search_anchored)
  with l show ?thesis by (blast intro: startswith_trans)
qed

lemma first_match_comment: "first_match FILE_MAPPINGS (CHR ''#'' # s) = None"
proof (cases "first_match FILE_MAPPINGS (CHR ''#'' # s)")
  case None
  then show ?thesis .
next
  case (Some k)
  from first_match_declaration [OF this] show ?thesis by simp
qed

section \<open>The pass as a fold\<close>

lemma fallback_name_key: "fallback_name block \<in> set all_keys"
  unfolding all_keys_eval by (simp add: fallback_name_def)

lemma first_match_key: "first_match table block = Some k \<Longrightarrow> k \<in> set (map fst table)"
  by (drule first_match_Some) force

lemma destination_key: "destination block \<in> set all_keys"
proof (cases "first_match FILE_MAPPINGS block")
  case None
  then show ?thesis by (simp add: destination_def fallback_name_key)
next
  case (Some k)
  from first_match_key [OF this] show ?thesis
    using Some by (simp add: destination_def all_keys_def)
qed

lemma fallback_char:
  assumes "map fst fc = all_keys"
  shows "fallback block fc = Inr (appended (fallback_name block) block fc)"
proof -
  have d: "distinct (map fst fc)" using assms distinct_all_keys by simp
  have k: "fallback_name block \<in> set (map fst fc)" using assms fallback_name_key by simp
  have "fallback block fc = dict_append fc (fallback_name block) block"
    by (simp add: fallback_def fallback_name_def)
  then show ?thesis using dict_append_appended [OF d k] by simp
qed

lemma process_block_char:
  assumes "map fst fc = all_keys"
  shows "process_block fc raw =
     Inr (if strip raw = [] \<or> startswith (strip raw) ''enum '' then fc else assign fc (strip raw))"
proof -
  have d: "distinct (map fst fc)" using assms distinct_all_keys by simp
  have s: "set (map fst FILE_MAPPINGS) \<subseteq> set (map fst fc)"
    using assms by (auto simp: all_keys_def)
  show ?thesis
    using assms
    by (simp add: process_block_def Let_def match_mappings_char [OF d s] fallback_char
          assign_def destination_def emitted_def split: option.splits)
qed

lemma keys_assign: "map fst (assign fc block) = map fst fc"
  by (simp add: assign_def)

lemma keys_foldl_assign: "map fst (foldl assign fc bs) = map fst fc"
  by (induction bs arbitrary: fc) (simp_all add: keys_assign)

lemma process_blocks_char:
  "map fst fc = all_keys \<Longrightarrow> process_blocks fc raws = Inr (foldl assign fc (kept raws))"
proof (induction raws arbitrary: fc)
  case Nil
  then show ?case by (simp add: kept_def)
next
  case (Cons raw raws)
  then show ?case
    by (simp add: process_block_char kept_def keys_assign)
qed

lemma blocks_of_foldl_assign:
  "map fst fc = all_keys \<Longrightarrow> k \<in> set all_keys \<Longrightarrow>
     blocks_of (foldl assign fc bs) k =
       blocks_of fc k @ map emitted (filter (\<lambda>b. destination b = k) bs)"
proof (induction bs arbitrary: fc)
  case Nil
  then show ?case by simp
next
  case (Cons b bs)
  have "blocks_of (assign fc b) k = blocks_of fc k @ (if destination b = k then [emitted b] else [])"
    using Cons.prems destination_key [of b]
    by (auto simp: assign_def blocks_of_appended)
  then show ?case
    using Cons.IH [of "assign fc b"] Cons.prems by (simp add: keys_assign)
qed

lemma mset_appended:
  "distinct (map fst fc) \<Longrightarrow> k \<in> set (map fst fc) \<Longrightarrow>
     mset (concat (map snd (appended k v fc))) = add_mset v (mset (concat (map snd fc)))"
proof (induction fc)
  case Nil
  then show ?case by simp
next
  case (Cons a fc)
  obtain k' vs where a: "a = (k', vs)" by (cases a)
  show ?case
  proof (cases "k' = k")
    case True
    then have "k \<notin> set (map fst fc)" using Cons.prems a by auto
    then have "appended k v fc = fc"
      by (induction fc) (auto simp: appended_def)
    then show ?thesis using True a by (simp add: appended_def)
  next
    case False
    then show ?thesis using Cons a by (auto simp: appended_def)
  qed
qed

lemma mset_foldl_assign:
  "map fst fc = all_keys \<Longrightarrow>
     mset (concat (map snd (foldl assign fc bs))) =
       mset (concat (map snd fc)) + image_mset emitted (mset bs)"
proof (induction bs arbitrary: fc)
  case Nil
  then show ?case by simp
next
  case (Cons b bs)
  have "mset (concat (map snd (assign fc b))) = add_mset (emitted b) (mset (concat (map snd fc)))"
    unfolding assign_def using Cons.prems distinct_all_keys destination_key [of b]
    by (intro mset_appended) simp_all
  then show ?case
    using Cons.IH [of "assign fc b"] Cons.prems by (simp add: keys_assign)
qed

lemma init_empty: "concat (map snd files_content_init) = []"
  by (simp add: files_content_init_def FILE_MAPPINGS_def)

lemma blocks_of_init: "blocks_of files_content_init k = []"
  by (simp add: files_content_init_def FILE_MAPPINGS_def blocks_of_def)

lemma classify_document_char:
  "classify_document content =
     Inr (foldl assign files_content_init (kept (re_split split_pattern content)))"
  by (simp add: classify_document_def process_blocks_char keys_init)

section \<open>Facts about the classifier and the patch\<close>

lemma first_match_iff:
  "first_match table block = Some k \<longleftrightarrow>
     (\<exists>i < length table. fst (table ! i) = k
        \<and> (\<exists>p \<in> set (snd (table ! i)). re_search p block)
        \<and> (\<forall>j < i. \<forall>p \<in> set (snd (table ! j)). \<not> re_search p block))"
proof -
  define P where "P = (\<lambda>x :: string \<times> rx list. \<exists>p \<in> set (snd x). re_search p block)"
  have "first_match table block = Some k \<longleftrightarrow> (\<exists>x. find P table = Some x \<and> fst x = k)"
    by (auto simp: first_match_def P_def list_ex_iff case_prod_unfold)
  also have "\<dots> \<longleftrightarrow> (\<exists>i < length table. P (table ! i) \<and> fst (table ! i) = k
                 \<and> (\<forall>j < i. \<not> P (table ! j)))"
    unfolding find_Some_iff by blast
  finally show ?thesis unfolding P_def by blast
qed

lemma re_search_anchored_start:
  "re_search (anchored l rest) s = matches_at (anchored l rest) None s"
  by (cases s) (simp_all add: re_search_def anchored_def search_from_Bol)

lemma table_patternsD:
  "(k, ps) \<in> set FILE_MAPPINGS \<Longrightarrow> p \<in> set ps \<Longrightarrow>
     \<exists>l rest. p = anchored l rest \<and> (startswith l ''type '' \<or> startswith l ''input '')"
  using table_patterns by blast

lemma table_anchored:
  "\<forall>(k, ps) \<in> set FILE_MAPPINGS. \<forall>p \<in> set ps. re_search p block = matches_at p None block"
proof -
  have "re_search p block = matches_at p None block"
    if kp: "(k, ps) \<in> set FILE_MAPPINGS" "p \<in> set ps" for k ps p
  proof -
    obtain l rest where "p = anchored l rest"
      using table_patternsD [OF kp] by blast
    then show ?thesis by (simp only: re_search_anchored_start)
  qed
  then show ?thesis by blast
qed

lemma declaration_not_skipped:
  assumes "startswith block ''type '' \<or> startswith block ''input ''"
  shows "block \<noteq> [] \<and> \<not> startswith block ''enum ''"
  using assms by (cases block) auto

lemma process_block_unmatched:
  assumes "map fst fc = all_keys" "strip raw \<noteq> []" "\<not> startswith (strip raw) ''enum ''"
    and "first_match FILE_MAPPINGS (strip raw) = None"
  shows "process_block fc raw = fallback (strip raw) fc"
  using assms
  by (simp add: process_block_char fallback_char assign_def destination_def emitted_def)

lemma rfind_absent: "c \<notin> set s \<Longrightarrow> rfind s c = - 1"
  by (induction s) (auto simp: Let_def)

lemma rfind_present:
  "c \<in> set s \<Longrightarrow>
     \<exists>pre post. s = pre @ c # post \<and> c \<notin> set post \<and> rfind s c = int (length pre)"
proof (induction s)
  case Nil
  then show ?case by simp
next
  case (Cons x xs)
  show ?case
  proof (cases "c \<in> set xs")
    case True
    then obtain pre post where p: "xs = pre @ c # post" "c \<notin> set post"
        "rfind xs c = int (length pre)"
      using Cons.IH by blast
    have "x # xs = (x # pre) @ c # post" using p(1) by simp
    moreover have "rfind (x # xs) c = int (length (x # pre))"
      using p(3) by (simp add: Let_def)
    ultimately show ?thesis using p(2) by blast
  next
    case False
    then have x: "x = c" using Cons.prems by simp
    have "rfind (x # xs) c = int (length ([] :: string))"
      using False x by (simp add: Let_def rfind_absent)
    moreover have "x # xs = [] @ c # xs" using x by simp
    ultimately show ?thesis using False by blast
  qed
qed

lemma patch_game_absent: "CHR ''}'' \<notin> set block \<Longrightarrow> patch_game block = block"
  by (simp add: patch_game_def rfind_absent)

lemma patch_game_present:
  assumes "CHR ''}'' \<in> set block"
  shows "\<exists>pre post. block = pre @ ''}'' @ post \<and> CHR ''}'' \<notin> set post
           \<and> patch_game block = pre @ GAME_ADDITIONS @ ''}'' @ post"
proof -
  obtain pre post where p: "block = pre @ CHR ''}'' # post" "CHR ''}'' \<notin> set post"
      "rfind block CHR ''}'' = int (length pre)"
    using rfind_present [OF assms] by blast
  have "patch_game block = pre @ GAME_ADDITIONS @ ''}'' @ post"
    unfolding patch_game_def Let_def p(3) using p(1) by simp
  with p show ?thesis by auto
qed

lemma last_split_unique:
  "pre @ c # post = pre' @ c # post' \<Longrightarrow> c \<notin> set post \<Longrightarrow> c \<notin> set post' \<Longrightarrow>
     pre = pre' \<and> post = post'"
proof (induction pre arbitrary: pre')
  case Nil
  then show ?case by (cases pre') auto
next
  case (Cons a pre)
  then show ?case by (cases pre') auto
qed

section \<open>Facts about the split and the writer\<close>



lemma concat_split_walk: "concat (split_walk r p acc s) = acc @ s"
  by (induction s arbitrary: p acc) auto

lemma concat_re_split: "concat (re_split r s) = s"
  by (simp add: re_split_def concat_split_walk)


lemma write_files_char:
  assumes "\<forall>k \<in> set (map fst fc). k \<noteq> ''00-enums.graphql'' \<longrightarrow> w (path_join OUTPUT_DIR k)"
  shows "write_files w fc =
           (Completed,
            map (\<lambda>(k, bs). Wrote (path_join OUTPUT_DIR k) (file_text k bs))
                (filter (\<lambda>(k, bs). k \<noteq> ''00-enums.graphql'') fc))"
  using assms
proof (induction fc)
  case Nil
  then show ?case by simp
next
  case (Cons a fc)
  obtain k bs where a: "a = (k, bs)" by (cases a)
  have ih: "write_files w fc =
           (Completed,
            map (\<lambda>(k, bs). Wrote (path_join OUTPUT_DIR k) (file_text k bs))
                (filter (\<lambda>(k, bs). k \<noteq> ''00-enums.graphql'') fc))"
    using Cons by simp
  show ?case
    using Cons.prems a ih by (simp add: Let_def)
qed

lemma blocks_of_member:
  "distinct (map fst fc) \<Longrightarrow> (k, bs) \<in> set fc \<Longrightarrow> blocks_of fc k = bs"
  by (simp add: blocks_of_def)

lemma by_key:
  assumes d: "distinct (map fst fc)"
  shows "map (\<lambda>(k, bs). f k bs) (filter (\<lambda>(k, bs). P k) fc)
       = map (\<lambda>k. f k (blocks_of fc k)) (filter P (map fst fc))"
proof -
  have 1: "filter (\<lambda>(k, bs). P k) fc = filter (P \<circ> fst) fc"
    by (simp add: case_prod_unfold comp_def)
  have 2: "map (\<lambda>(k, bs). f k bs) (filter (P \<circ> fst) fc)
         = map (\<lambda>x. f (fst x) (blocks_of fc (fst x))) (filter (P \<circ> fst) fc)"
    by (rule map_cong) (auto simp: blocks_of_member [OF d])
  have 3: "map (\<lambda>x. f (fst x) (blocks_of fc (fst x))) (filter (P \<circ> fst) fc)
         = map (\<lambda>k. f k (blocks_of fc k)) (filter P (map fst fc))"
    by (simp add: filter_map comp_def)
  show ?thesis unfolding 1 2 3 ..
qed

lemma placeholder_not_in_table: "''00-enums.graphql'' \<notin> set (map fst FILE_MAPPINGS)"
  by (simp add: FILE_MAPPINGS_def)

lemma written_keys:
  "filter (\<lambda>k. k \<noteq> ''00-enums.graphql'') all_keys = map fst FILE_MAPPINGS"
  unfolding all_keys_eval by (simp add: FILE_MAPPINGS_def)

lemma write_files_keys:
  assumes "map fst fc = all_keys"
    and "\<forall>k \<in> set (map fst FILE_MAPPINGS). w (path_join OUTPUT_DIR k)"
  shows "write_files w fc =
           (Completed,
            map (\<lambda>k. Wrote (path_join OUTPUT_DIR k) (file_text k (blocks_of fc k)))
                (map fst FILE_MAPPINGS))"
proof -
  have d: "distinct (map fst fc)" using assms(1) distinct_all_keys by simp
  have w: "\<forall>k \<in> set (map fst fc). k \<noteq> ''00-enums.graphql'' \<longrightarrow> w (path_join OUTPUT_DIR k)"
    using assms by (auto simp: all_keys_def)
  show ?thesis
    unfolding write_files_char [OF w]
    using by_key [OF d, of "\<lambda>k bs. Wrote (path_join OUTPUT_DIR k) (file_text k bs)"
                    "\<lambda>k. k \<noteq> ''00-enums.graphql''"]
    by (simp add: assms(1) written_keys)
qed

lemma table_paths:
  "\<forall>k \<in> set (map fst FILE_MAPPINGS).
     path_join OUTPUT_DIR k = ''amplify/backend/api/kingsroom/schema/'' @ k"
  by (simp add: FILE_MAPPINGS_def path_join_def OUTPUT_DIR_def)

lemma join_char:
  "join sep (b # bs) = b @ concat (map (\<lambda>x. sep @ x) bs)"
  by (induction bs arbitrary: b) auto

lemma file_text_char:
  "file_text k blocks =
     (''# '' @ k @ [newline])
     @ (''# =========================================='' @ [newline])
     @ [newline]
     @ (case blocks of [] \<Rightarrow> [] | b # bs \<Rightarrow> b @ concat (map (\<lambda>x. [newline, newline] @ x) bs))"
  by (cases blocks) (simp_all only: file_text_def join_char join.simps list.case append_assoc append.simps)

lemma split_schema_content:
  assumes "source e = Content content"
    and "dir_exists e \<or> makedirs_ok e"
    and "\<forall>k \<in> set (map fst FILE_MAPPINGS). writable e (path_join OUTPUT_DIR k)"
    and "classify_document content = Inr fc"
  shows "split_schema e =
          (Completed,
           (if dir_exists e then [] else [MadeDirs OUTPUT_DIR])
           @ [ReadAttempt SOURCE_FILE]
           @ map (\<lambda>k. Wrote (path_join OUTPUT_DIR k) (file_text k (blocks_of fc k)))
                 (map fst FILE_MAPPINGS))"
proof -
  have "fc = foldl assign files_content_init (kept (re_split split_pattern content))"
    using assms(4) by (simp add: classify_document_char)
  then have k: "map fst fc = all_keys" by (simp add: keys_foldl_assign keys_init)
  show ?thesis
    using assms(1,2) by (auto simp: split_schema_def assms(4) write_files_keys [OF k assms(3)])
qed

text \<open>
  What the enum skip does achieve: no stored block starts with \<^verbatim>\<open>enum \<close>. And a comment line
  before a declaration does not stay with it: the split also cuts at the line feed that ends
  the comment.
\<close>

lemma patch_game_head:
  assumes "startswith block ''type '' \<or> startswith block ''input ''"
  shows "\<not> startswith (patch_game block) ''enum ''"
proof (cases "CHR ''}'' \<in> set block")
  case False
  then show ?thesis
    using assms declaration_not_skipped by (simp add: patch_game_absent)
next
  case True
  then obtain pre post where p: "block = pre @ ''}'' @ post"
      "patch_game block = pre @ GAME_ADDITIONS @ ''}'' @ post"
    using patch_game_present by blast
  show ?thesis
  proof (cases pre)
    case Nil
    then show ?thesis using assms p(1) by auto
  next
    case (Cons a as)
    then have "a = CHR ''t'' \<or> a = CHR ''i''" using assms p(1) by auto
    then show ?thesis unfolding p(2) Cons by auto
  qed
qed

lemma emitted_not_enum:
  assumes "block \<noteq> []" "\<not> startswith block ''enum ''"
  shows "\<not> startswith (emitted block) ''enum ''"
proof (cases "emitted block = block")
  case True
  then show ?thesis using assms by simp
next
  case False
  then have "first_match FILE_MAPPINGS block = Some ''30-games.graphql''"
      and e: "emitted block = patch_game block"
    by (auto simp: emitted_def split: if_splits)
  from first_match_declaration [OF this(1)] show ?thesis
    unfolding e by (rule patch_game_head)
qed

lemma stored_blocks_not_enum:
  assumes "classify_document content = Inr fc" "(k, bs) \<in> set fc" "b \<in> set bs"
  shows "\<not> startswith b ''enum ''"
proof -
  let ?kept = "kept (re_split split_pattern content)"
  have fc: "fc = foldl assign files_content_init ?kept"
    using assms(1) by (simp add: classify_document_char)
  then have keys: "map fst fc = all_keys" by (simp add: keys_foldl_assign keys_init)
  then have d: "distinct (map fst fc)" using distinct_all_keys by simp
  have k: "k \<in> set all_keys" using assms(2) keys by (metis fst_conv image_eqI set_map)
  have "bs = blocks_of fc k" using blocks_of_member [OF d assms(2)] by simp
  also have "\<dots> = map emitted (filter (\<lambda>b. destination b = k) ?kept)"
    unfolding fc using blocks_of_foldl_assign [OF keys_init k] by (simp add: blocks_of_init)
  finally obtain b0 where b0: "b0 \<in> set ?kept" "b = emitted b0"
    using assms(3) by auto
  from b0(1) have "b0 \<noteq> []" "\<not> startswith b0 ''enum ''"
    by (auto simp: kept_def)
  then show ?thesis unfolding b0(2) by (rule emitted_not_enum)
qed

lemma comment_cut_from_enum:
  "re_split split_pattern ''type Query { a: Int }\<newline># status values\<newline>enum Status { A B }\<newline>''
     = [''type Query { a: Int }'', ''\<newline># status values'', ''\<newline>enum Status { A B }\<newline>'']
   \<and> classify_document ''type Query { a: Int }\<newline># status values\<newline>enum Status { A B }\<newline>''
     = Inr [(''10-entities.graphql'', []),
            (''20-venues.graphql'', []),
            (''30-games.graphql'', []),
            (''40-tournaments.graphql'', []),
            (''50-players.graphql'', []),
            (''60-financials.graphql'', []),
            (''80-scrapers.graphql'', []),
            (''85-social.graphql'', []),
            (''90-staff.graphql'', []),
            (''99-mutations.graphql'', [''type Query { a: Int }'', ''# status values'']),
            (''00-enums.graphql'', [])]"
  by code_simp

section \<open>Partition and order\<close>

text \<open>
  Claim C1. For every document the pass ends without an error, and every block that is not
  empty after trimming and does not start with \<^verbatim>\<open>enum \<close> is appended to exactly one list: the
  keys of the dictionary are distinct, and the blocks of all lists together are, as a
  multiset, the retained blocks of the document, each counted as often as it occurs. A block
  is stored as \<open>emitted\<close> gives it: unchanged, except for the patched Game type.
\<close>

theorem partition_of_blocks:
  "\<exists>fc. classify_document content = Inr fc
      \<and> map fst fc = map fst FILE_MAPPINGS @ [''00-enums.graphql'']
      \<and> distinct (map fst fc)
      \<and> mset (concat (map snd fc))
          = image_mset emitted (mset (kept (re_split split_pattern content)))"
proof -
  let ?fc = "foldl assign files_content_init (kept (re_split split_pattern content))"
  have k: "map fst ?fc = all_keys"
    by (simp add: keys_foldl_assign keys_init)
  have "mset (concat (map snd ?fc))
          = image_mset emitted (mset (kept (re_split split_pattern content)))"
    by (simp add: mset_foldl_assign keys_init init_empty)
  with k show ?thesis
    using distinct_all_keys by (simp add: classify_document_char all_keys_def)
qed

theorem partition_of_blocks_witness:
  "\<exists>fc. classify_document
          ''# schema\<newline>type Game @model { id: ID! }\<newline>enum Status { A B }\<newline>type Query { a: Int }'' = Inr fc
      \<and> mset (concat (map snd fc))
          = {#''# schema'', ''type Game @model { id: ID! '' @ GAME_ADDITIONS @ ''}'',
              ''type Query { a: Int }''#}"
proof -
  have "image_mset emitted (mset (kept (re_split split_pattern
          ''# schema\<newline>type Game @model { id: ID! }\<newline>enum Status { A B }\<newline>type Query { a: Int }'')))
        = {#''# schema'', ''type Game @model { id: ID! '' @ GAME_ADDITIONS @ ''}'',
              ''type Query { a: Int }''#}"
    by code_simp
  then show ?thesis
    using partition_of_blocks
      [of "''# schema\<newline>type Game @model { id: ID! }\<newline>enum Status { A B }\<newline>type Query { a: Int }''"]
    by auto
qed

text \<open>
  Claim C6. For every document and every category, the list of the category is the sequence
  of the retained blocks of the document, in the order of the document, restricted to the
  blocks that go to this category.
\<close>

theorem order_preserved:
  "\<exists>fc. classify_document content = Inr fc
      \<and> map fst fc = map fst FILE_MAPPINGS @ [''00-enums.graphql'']
      \<and> (\<forall>k \<in> set (map fst fc).
            blocks_of fc k
              = map emitted (filter (\<lambda>b. destination b = k)
                  (kept (re_split split_pattern content))))"
proof -
  let ?fc = "foldl assign files_content_init (kept (re_split split_pattern content))"
  have k: "map fst ?fc = all_keys"
    by (simp add: keys_foldl_assign keys_init)
  have "\<forall>k \<in> set all_keys. blocks_of ?fc k
              = map emitted (filter (\<lambda>b. destination b = k)
                  (kept (re_split split_pattern content)))"
    by (simp add: blocks_of_foldl_assign keys_init blocks_of_init)
  then have h: "\<forall>k \<in> set (map fst ?fc). blocks_of ?fc k
              = map emitted (filter (\<lambda>b. destination b = k)
                  (kept (re_split split_pattern content)))"
    by (simp only: k)
  have c: "classify_document content = Inr ?fc"
    by (rule classify_document_char)
  have k': "map fst ?fc = map fst FILE_MAPPINGS @ [''00-enums.graphql'']"
    using k by (simp only: all_keys_def)
  from c k' h show ?thesis by blast
qed

theorem order_preserved_witness:
  "\<exists>fc. classify_document
          ''type Query { a: Int }\<newline>type Player { id: ID! }\<newline>type Mutation { b: Int }'' = Inr fc
      \<and> ''99-mutations.graphql'' \<in> set (map fst fc)
      \<and> blocks_of fc ''99-mutations.graphql''
          = [''type Query { a: Int }'', ''type Mutation { b: Int }'']"
proof -
  obtain fc where fc: "classify_document
          ''type Query { a: Int }\<newline>type Player { id: ID! }\<newline>type Mutation { b: Int }'' = Inr fc"
      "map fst fc = map fst FILE_MAPPINGS @ [''00-enums.graphql'']"
      "\<forall>k \<in> set (map fst fc).
            blocks_of fc k
              = map emitted (filter (\<lambda>b. destination b = k)
                  (kept (re_split split_pattern
          ''type Query { a: Int }\<newline>type Player { id: ID! }\<newline>type Mutation { b: Int }'')))"
    using order_preserved by blast
  have m: "''99-mutations.graphql'' \<in> set (map fst fc)"
    unfolding fc(2) by (simp add: FILE_MAPPINGS_def)
  have "map emitted (filter (\<lambda>b. destination b = ''99-mutations.graphql'')
         (kept (re_split split_pattern
            ''type Query { a: Int }\<newline>type Player { id: ID! }\<newline>type Mutation { b: Int }'')))
       = [''type Query { a: Int }'', ''type Mutation { b: Int }'']"
    by code_simp
  with fc(1) fc(3) m show ?thesis by auto
qed

section \<open>Classifier, patcher and fallback resolver\<close>

text \<open>
  Claim C3. For a dictionary with the keys of the run, the two loops over the table do what
  the first-match rule says: the block goes to the first category, in the order of the table,
  that has a matching pattern, and nothing else is appended; \<open>first_match\<close> is that category.
  Every pattern of the table matches at the start of the block text or not at all. So a
  trimmed block that starts with a comment character matches no pattern, and the loop body
  hands it to the fallback resolver.
\<close>

theorem classification_first_match:
  assumes "map fst fc = map fst files_content_init"
  shows "match_mappings FILE_MAPPINGS block fc =
           (case first_match FILE_MAPPINGS block of
              None \<Rightarrow> Inr (False, fc)
            | Some k \<Rightarrow> Inr (True, appended k
                 (if str_in ''type Game @model'' block \<and> k = ''30-games.graphql''
                  then patch_game block else block) fc))
       \<and> (\<forall>k. first_match FILE_MAPPINGS block = Some k \<longleftrightarrow>
             (\<exists>i < length FILE_MAPPINGS. fst (FILE_MAPPINGS ! i) = k
                \<and> (\<exists>p \<in> set (snd (FILE_MAPPINGS ! i)). re_search p block)
                \<and> (\<forall>j < i. \<forall>p \<in> set (snd (FILE_MAPPINGS ! j)). \<not> re_search p block)))
       \<and> (\<forall>(k, ps) \<in> set FILE_MAPPINGS. \<forall>p \<in> set ps.
             re_search p block = matches_at p None block)
       \<and> (\<forall>s. strip raw = CHR ''#'' # s \<longrightarrow>
             first_match FILE_MAPPINGS (strip raw) = None
             \<and> process_block fc raw = fallback (strip raw) fc)"
proof -
  have keys: "map fst fc = all_keys" using assms by (simp add: keys_init)
  have d: "distinct (map fst fc)" using keys distinct_all_keys by simp
  have s: "set (map fst FILE_MAPPINGS) \<subseteq> set (map fst fc)"
    using keys by (auto simp: all_keys_def)
  have c: "first_match FILE_MAPPINGS (strip raw) = None
          \<and> process_block fc raw = fallback (strip raw) fc"
    if "strip raw = CHR ''#'' # s" for s
  proof -
    have n: "first_match FILE_MAPPINGS (strip raw) = None"
      using that by (simp add: first_match_comment)
    have "strip raw \<noteq> []" "\<not> startswith (strip raw) ''enum ''"
      using that by simp_all
    with n keys show ?thesis by (simp add: process_block_unmatched)
  qed
  have c': "\<forall>s. strip raw = CHR ''#'' # s \<longrightarrow>
             first_match FILE_MAPPINGS (strip raw) = None
             \<and> process_block fc raw = fallback (strip raw) fc"
    using c by blast
  have i: "\<forall>k. first_match FILE_MAPPINGS block = Some k \<longleftrightarrow>
             (\<exists>i < length FILE_MAPPINGS. fst (FILE_MAPPINGS ! i) = k
                \<and> (\<exists>p \<in> set (snd (FILE_MAPPINGS ! i)). re_search p block)
                \<and> (\<forall>j < i. \<forall>p \<in> set (snd (FILE_MAPPINGS ! j)). \<not> re_search p block))"
    using first_match_iff [of FILE_MAPPINGS block] by blast
  show ?thesis
    by (intro conjI match_mappings_char [OF d s] i table_anchored c')
qed

theorem classification_first_match_witness:
  "map fst files_content_init = map fst files_content_init
   \<and> match_mappings FILE_MAPPINGS ''type VenueDetails { id: ID! }'' files_content_init
       = Inr (True, appended ''20-venues.graphql'' ''type VenueDetails { id: ID! }'' files_content_init)
   \<and> re_search (anchored ''type Entity'' WordB) ''type Entity @model { id: ID! }''
   \<and> \<not> re_search (anchored ''type Entity'' WordB) ''# note\<newline>type Entity @model { id: ID! }''
   \<and> process_block files_content_init ''  # note\<newline>type Entity @model { id: ID! }\<newline>''
       = fallback ''# note\<newline>type Entity @model { id: ID! }'' files_content_init"
proof -
  have f: "first_match FILE_MAPPINGS ''type VenueDetails { id: ID! }'' = Some ''20-venues.graphql''"
    by code_simp
  have m: "\<not> str_in ''type Game @model'' ''type VenueDetails { id: ID! }''"
    by code_simp
  have st: "strip ''  # note\<newline>type Entity @model { id: ID! }\<newline>''
              = CHR ''#'' # '' note\<newline>type Entity @model { id: ID! }''"
    by code_simp
  have r1: "re_search (anchored ''type Entity'' WordB) ''type Entity @model { id: ID! }''"
    by code_simp
  have r2: "\<not> re_search (anchored ''type Entity'' WordB) ''# note\<newline>type Entity @model { id: ID! }''"
    by code_simp
  show ?thesis
    using classification_first_match [of files_content_init "''type VenueDetails { id: ID! }''"
          "''  # note\<newline>type Entity @model { id: ID! }\<newline>''"]
      f m st r1 r2
    by simp
qed

text \<open>
  Claim C4, as stated: every block assigned to the games category that contains
  \<^verbatim>\<open>type Game @model\<close> is stored with the fragment before its last closing brace. It fails for
  a block that no pattern matches and that the fallback resolver sends to the games category
  for its keyword Game: the block contains the marker and a closing brace, and it is stored
  as it is.
\<close>

theorem fallback_games_block_not_patched:
  "str_in ''type Game @model'' ''extend type Game @model { x: Int }''
   \<and> CHR ''}'' \<in> set ''extend type Game @model { x: Int }''
   \<and> classify_document ''extend type Game @model { x: Int }''
       = Inr [(''10-entities.graphql'', []),
              (''20-venues.graphql'', []),
              (''30-games.graphql'', [''extend type Game @model { x: Int }'']),
              (''40-tournaments.graphql'', []),
              (''50-players.graphql'', []),
              (''60-financials.graphql'', []),
              (''80-scrapers.graphql'', []),
              (''85-social.graphql'', []),
              (''90-staff.graphql'', []),
              (''99-mutations.graphql'', []),
              (''00-enums.graphql'', [])]
   \<and> ''extend type Game @model { x: Int }''
       \<noteq> ''extend type Game @model { x: Int '' @ GAME_ADDITIONS @ ''}''"
  by code_simp

text \<open>
  Claim C4, amended. A block to which the classifier assigns the games category, by a
  pattern of that category, and which contains \<^verbatim>\<open>type Game @model\<close> is appended once, to the
  games list. If it has a closing brace, the stored text is the block with the fragment put
  before its last closing brace, that brace and what follows it unchanged; if it has none,
  the stored text is the block.
\<close>

theorem game_type_patched:
  assumes "map fst fc = map fst files_content_init"
    and "first_match FILE_MAPPINGS (strip raw) = Some ''30-games.graphql''"
    and "str_in ''type Game @model'' (strip raw)"
  shows "\<exists>stored. process_block fc raw = Inr (appended ''30-games.graphql'' stored fc)
           \<and> blocks_of (appended ''30-games.graphql'' stored fc) ''30-games.graphql''
                = blocks_of fc ''30-games.graphql'' @ [stored]
           \<and> (CHR ''}'' \<in> set (strip raw) \<longrightarrow>
                 (\<exists>pre post. strip raw = pre @ ''}'' @ post \<and> CHR ''}'' \<notin> set post
                    \<and> stored = pre @ GAME_ADDITIONS @ ''}'' @ post))
           \<and> (CHR ''}'' \<notin> set (strip raw) \<longrightarrow> stored = strip raw)"
proof -
  have keys: "map fst fc = all_keys" using assms(1) by (simp add: keys_init)
  have g: "''30-games.graphql'' \<in> set (map fst fc)"
    unfolding keys all_keys_eval by simp
  have "strip raw \<noteq> [] \<and> \<not> startswith (strip raw) ''enum ''"
    using first_match_declaration [OF assms(2)] by (rule declaration_not_skipped)
  then have p: "process_block fc raw = Inr (appended ''30-games.graphql'' (patch_game (strip raw)) fc)"
    using assms(2,3) keys
    by (simp add: process_block_char assign_def destination_def emitted_def)
  have b: "blocks_of (appended ''30-games.graphql'' (patch_game (strip raw)) fc) ''30-games.graphql''
                = blocks_of fc ''30-games.graphql'' @ [patch_game (strip raw)]"
    using g by (simp add: blocks_of_appended)
  show ?thesis
    using p b patch_game_present [of "strip raw"] patch_game_absent [of "strip raw"]
    by blast
qed

theorem game_type_patched_witness:
  "map fst files_content_init = map fst files_content_init
   \<and> first_match FILE_MAPPINGS (strip ''\<newline>type Game @model { id: ID! } # end\<newline>'') = Some ''30-games.graphql''
   \<and> str_in ''type Game @model'' (strip ''\<newline>type Game @model { id: ID! } # end\<newline>'')
   \<and> process_block files_content_init ''\<newline>type Game @model { id: ID! } # end\<newline>''
       = Inr (appended ''30-games.graphql''
               (''type Game @model { id: ID! '' @ GAME_ADDITIONS @ ''} # end'') files_content_init)"
proof -
  have st: "strip ''\<newline>type Game @model { id: ID! } # end\<newline>'' = ''type Game @model { id: ID! } # end''"
    by code_simp
  have f: "first_match FILE_MAPPINGS ''type Game @model { id: ID! } # end'' = Some ''30-games.graphql''"
    by code_simp
  have m: "str_in ''type Game @model'' ''type Game @model { id: ID! } # end''"
    by code_simp
  have b: "CHR ''}'' \<in> set ''type Game @model { id: ID! } # end''"
    by simp
  from game_type_patched [of files_content_init "''\<newline>type Game @model { id: ID! } # end\<newline>''"]
  obtain stored pre post where t:
      "process_block files_content_init ''\<newline>type Game @model { id: ID! } # end\<newline>''
        = Inr (appended ''30-games.graphql'' stored files_content_init)"
      "''type Game @model { id: ID! } # end'' = pre @ ''}'' @ post"
      "CHR ''}'' \<notin> set post"
      "stored = pre @ GAME_ADDITIONS @ ''}'' @ post"
    unfolding st using f m b by blast
  have e: "pre @ CHR ''}'' # post = ''type Game @model { id: ID! '' @ CHR ''}'' # '' # end''"
    using t(2) by simp
  have n: "CHR ''}'' \<notin> set '' # end''" by simp
  have "pre = ''type Game @model { id: ID! '' \<and> post = '' # end''"
    using last_split_unique [OF e t(3) n] .
  with t(1,4) show ?thesis
    unfolding st using f m by simp
qed

text \<open>
  Claim C7, as stated: every block that no pattern matches goes to the category of the first
  keyword it contains. It fails for an enum declaration: no pattern matches it, it contains
  Player and not Game, and the loop body drops it before the fallback resolver is reached.
\<close>

theorem unmatched_enum_block_dropped:
  "strip ''enum PlayerStatus { ACTIVE }'' = ''enum PlayerStatus { ACTIVE }''
   \<and> first_match FILE_MAPPINGS ''enum PlayerStatus { ACTIVE }'' = None
   \<and> str_in ''Player'' ''enum PlayerStatus { ACTIVE }''
   \<and> \<not> str_in ''Game'' ''enum PlayerStatus { ACTIVE }''
   \<and> process_block files_content_init ''enum PlayerStatus { ACTIVE }'' = Inr files_content_init
   \<and> classify_document ''enum PlayerStatus { ACTIVE }''
       = Inr [(''10-entities.graphql'', []),
              (''20-venues.graphql'', []),
              (''30-games.graphql'', []),
              (''40-tournaments.graphql'', []),
              (''50-players.graphql'', []),
              (''60-financials.graphql'', []),
              (''80-scrapers.graphql'', []),
              (''85-social.graphql'', []),
              (''90-staff.graphql'', []),
              (''99-mutations.graphql'', []),
              (''00-enums.graphql'', [])]"
  by code_simp

text \<open>
  Claim C7, amended. A block that is not empty after trimming, does not start with
  \<^verbatim>\<open>enum \<close> and that no pattern matches is appended, unchanged, to the category of the first
  keyword it contains, in the order Game, Player, Venue, and to \<^verbatim>\<open>99-mutations.graphql\<close>
  when it contains none. In particular a block with Player and without Game goes to the
  players list whether or not it contains Venue.
\<close>

theorem fallback_precedence:
  assumes "map fst fc = map fst files_content_init"
    and "strip raw \<noteq> []" and "\<not> startswith (strip raw) ''enum ''"
    and "first_match FILE_MAPPINGS (strip raw) = None"
  shows "process_block fc raw =
           Inr (appended
                 (if str_in ''Game'' (strip raw) then ''30-games.graphql''
                  else if str_in ''Player'' (strip raw) then ''50-players.graphql''
                  else if str_in ''Venue'' (strip raw) then ''20-venues.graphql''
                  else ''99-mutations.graphql'')
                 (strip raw) fc)
       \<and> (str_in ''Player'' (strip raw) \<and> \<not> str_in ''Game'' (strip raw) \<longrightarrow>
             blocks_of (projr (process_block fc raw)) ''50-players.graphql''
               = blocks_of fc ''50-players.graphql'' @ [strip raw])
       \<and> (\<not> str_in ''Game'' (strip raw) \<and> \<not> str_in ''Player'' (strip raw)
            \<and> \<not> str_in ''Venue'' (strip raw) \<longrightarrow>
             blocks_of (projr (process_block fc raw)) ''99-mutations.graphql''
               = blocks_of fc ''99-mutations.graphql'' @ [strip raw])"
proof -
  have keys: "map fst fc = all_keys" using assms(1) by (simp add: keys_init)
  have p: "process_block fc raw = Inr (appended (fallback_name (strip raw)) (strip raw) fc)"
    using assms(2-4) keys
    by (simp add: process_block_unmatched fallback_char)
  have k: "''50-players.graphql'' \<in> set (map fst fc)" "''99-mutations.graphql'' \<in> set (map fst fc)"
    unfolding keys all_keys_eval by simp_all
  show ?thesis
    unfolding p using k by (simp add: fallback_name_def blocks_of_appended)
qed

theorem fallback_precedence_witness:
  "map fst files_content_init = map fst files_content_init
   \<and> strip ''# Player seated at a Venue'' \<noteq> []
   \<and> \<not> startswith (strip ''# Player seated at a Venue'') ''enum ''
   \<and> first_match FILE_MAPPINGS (strip ''# Player seated at a Venue'') = None
   \<and> process_block files_content_init ''# Player seated at a Venue''
       = Inr (appended ''50-players.graphql'' ''# Player seated at a Venue'' files_content_init)"
proof -
  have st: "strip ''# Player seated at a Venue'' = ''# Player seated at a Venue''"
    by code_simp
  have f: "first_match FILE_MAPPINGS ''# Player seated at a Venue'' = None"
    by code_simp
  have g: "\<not> str_in ''Game'' ''# Player seated at a Venue''"
    and pl: "str_in ''Player'' ''# Player seated at a Venue''"
    by code_simp+
  show ?thesis
    using fallback_precedence [of files_content_init "''# Player seated at a Venue''"]
    unfolding st using f g pl by simp
qed

section \<open>The writer and the run\<close>

text \<open>
  Claim C8. When the source can be read and every category file can be opened, the run
  writes one file per key of the table, in the order of the table, and nothing for the
  placeholder \<^verbatim>\<open>00-enums.graphql\<close>, which is a key of the dictionary but not of the table.
  The text of a file is the line \<^verbatim>\<open># name\<close>, the banner line, an empty line, and then the
  blocks of the category: the first block, and two line feeds before each further block.
\<close>

theorem writer_outputs:
  assumes "source e = Content content"
    and "dir_exists e \<or> makedirs_ok e"
    and "\<forall>k \<in> set (map fst FILE_MAPPINGS). writable e (path_join OUTPUT_DIR k)"
  shows "\<exists>fc. classify_document content = Inr fc
      \<and> ''00-enums.graphql'' \<in> set (map fst fc)
      \<and> ''00-enums.graphql'' \<notin> set (map fst FILE_MAPPINGS)
      \<and> split_schema e =
          (Completed,
           (if dir_exists e then [] else [MadeDirs OUTPUT_DIR])
           @ [ReadAttempt SOURCE_FILE]
           @ map (\<lambda>k. Wrote (path_join OUTPUT_DIR k)
                        ((''# '' @ k @ [newline])
                         @ (''# =========================================='' @ [newline])
                         @ [newline]
                         @ (case blocks_of fc k of
                              [] \<Rightarrow> []
                            | b # bs \<Rightarrow> b @ concat (map (\<lambda>x. [newline, newline] @ x) bs))))
                 (map fst FILE_MAPPINGS))
      \<and> (\<forall>k \<in> set (map fst FILE_MAPPINGS).
            path_join OUTPUT_DIR k = ''amplify/backend/api/kingsroom/schema/'' @ k)"
proof -
  let ?fc = "foldl assign files_content_init (kept (re_split split_pattern content))"
  have c: "classify_document content = Inr ?fc" by (rule classify_document_char)
  have k: "map fst ?fc = all_keys" by (simp add: keys_foldl_assign keys_init)
  have p: "''00-enums.graphql'' \<in> set (map fst ?fc)"
    unfolding k by (simp add: all_keys_def)
  have s: "split_schema e =
          (Completed,
           (if dir_exists e then [] else [MadeDirs OUTPUT_DIR])
           @ [ReadAttempt SOURCE_FILE]
           @ map (\<lambda>k. Wrote (path_join OUTPUT_DIR k)
                        ((''# '' @ k @ [newline])
                         @ (''# =========================================='' @ [newline])
                         @ [newline]
                         @ (case blocks_of ?fc k of
                              [] \<Rightarrow> []
                            | b # bs \<Rightarrow> b @ concat (map (\<lambda>x. [newline, newline] @ x) bs))))
                 (map fst FILE_MAPPINGS))"
    unfolding split_schema_content [OF assms c] file_text_char ..
  from c p s placeholder_not_in_table table_paths show ?thesis by blast
qed

theorem writer_outputs_witness:
  "source \<lparr>dir_exists = True, makedirs_ok = False,
            source = Content ''type Query { a: Int }\<newline>type Mutation { b: Int }\<newline>type Subscription { c: Int }'',
            writable = (\<lambda>p. True)\<rparr>
     = Content ''type Query { a: Int }\<newline>type Mutation { b: Int }\<newline>type Subscription { c: Int }''
   \<and> fst (split_schema \<lparr>dir_exists = True, makedirs_ok = False,
            source = Content ''type Query { a: Int }\<newline>type Mutation { b: Int }\<newline>type Subscription { c: Int }'',
            writable = (\<lambda>p. True)\<rparr>) = Completed
   \<and> length (snd (split_schema \<lparr>dir_exists = True, makedirs_ok = False,
            source = Content ''type Query { a: Int }\<newline>type Mutation { b: Int }\<newline>type Subscription { c: Int }'',
            writable = (\<lambda>p. True)\<rparr>)) = 11
   \<and> snd (split_schema \<lparr>dir_exists = True, makedirs_ok = False,
            source = Content ''type Query { a: Int }\<newline>type Mutation { b: Int }\<newline>type Subscription { c: Int }'',
            writable = (\<lambda>p. True)\<rparr>) ! 1
       = Wrote ''amplify/backend/api/kingsroom/schema/10-entities.graphql''
           ''# 10-entities.graphql\<newline># ==========================================\<newline>\<newline>''
   \<and> last (snd (split_schema \<lparr>dir_exists = True, makedirs_ok = False,
            source = Content ''type Query { a: Int }\<newline>type Mutation { b: Int }\<newline>type Subscription { c: Int }'',
            writable = (\<lambda>p. True)\<rparr>))
       = Wrote ''amplify/backend/api/kingsroom/schema/99-mutations.graphql''
           ''# 99-mutations.graphql\<newline># ==========================================\<newline>\<newline>type Query { a: Int }\<newline>\<newline>type Mutation { b: Int }\<newline>\<newline>type Subscription { c: Int }''"
proof -
  let ?doc = "''type Query { a: Int }\<newline>type Mutation { b: Int }\<newline>type Subscription { c: Int }''"
  let ?e = "\<lparr>dir_exists = True, makedirs_ok = False, source = Content ?doc,
            writable = (\<lambda>p. True)\<rparr>"
  obtain fc where fc: "classify_document ?doc = Inr fc"
    and s: "split_schema ?e =
          (Completed,
           (if dir_exists ?e then [] else [MadeDirs OUTPUT_DIR])
           @ [ReadAttempt SOURCE_FILE]
           @ map (\<lambda>k. Wrote (path_join OUTPUT_DIR k)
                        ((''# '' @ k @ [newline])
                         @ (''# =========================================='' @ [newline])
                         @ [newline]
                         @ (case blocks_of fc k of
                              [] \<Rightarrow> []
                            | b # bs \<Rightarrow> b @ concat (map (\<lambda>x. [newline, newline] @ x) bs))))
                 (map fst FILE_MAPPINGS))"
    using writer_outputs [of ?e ?doc] by auto
  have "classify_document ?doc
          = Inr [(''10-entities.graphql'', []),
                 (''20-venues.graphql'', []),
                 (''30-games.graphql'', []),
                 (''40-tournaments.graphql'', []),
                 (''50-players.graphql'', []),
                 (''60-financials.graphql'', []),
                 (''80-scrapers.graphql'', []),
                 (''85-social.graphql'', []),
                 (''90-staff.graphql'', []),
                 (''99-mutations.graphql'',
                    [''type Query { a: Int }'', ''type Mutation { b: Int }'',
                     ''type Subscription { c: Int }'']),
                 (''00-enums.graphql'', [])]"
    by code_simp
  with fc have b: "blocks_of fc ''99-mutations.graphql''
         = [''type Query { a: Int }'', ''type Mutation { b: Int }'', ''type Subscription { c: Int }'']"
      "blocks_of fc ''10-entities.graphql'' = []"
    by (auto simp: blocks_of_def)
  show ?thesis
    unfolding s using b
    by (simp add: FILE_MAPPINGS_def path_join_def OUTPUT_DIR_def newline_def)
qed

text \<open>
  Claim C9. When the source cannot be read, no category file is written and the run does not
  complete. The directory is created only when it does not exist, and its creation comes
  before the attempt to read: the trace is the creation followed by the attempt, or the
  attempt alone when the directory exists. Nothing undoes the creation.
\<close>

theorem source_unreadable:
  assumes "source e = FileNotFound \<or> source e = ReadFailure"
  shows "(\<forall>p c. Wrote p c \<notin> set (snd (split_schema e)))
       \<and> fst (split_schema e) \<noteq> Completed
       \<and> (dir_exists e \<longrightarrow> snd (split_schema e) = [ReadAttempt SOURCE_FILE])
       \<and> (\<not> dir_exists e \<and> makedirs_ok e \<longrightarrow>
             snd (split_schema e) = [MadeDirs OUTPUT_DIR, ReadAttempt SOURCE_FILE])
       \<and> (\<not> dir_exists e \<and> \<not> makedirs_ok e \<longrightarrow>
             split_schema e = (Raised (OSError OUTPUT_DIR), []))
       \<and> (source e = FileNotFound \<and> (dir_exists e \<or> makedirs_ok e) \<longrightarrow>
             fst (split_schema e) = Returned)"
  using assms by (auto simp: split_schema_def)

theorem source_unreadable_witness:
  "(source \<lparr>dir_exists = False, makedirs_ok = True, source = FileNotFound,
             writable = (\<lambda>p. True)\<rparr> = FileNotFound
      \<or> source \<lparr>dir_exists = False, makedirs_ok = True, source = FileNotFound,
             writable = (\<lambda>p. True)\<rparr> = ReadFailure)
   \<and> fst (split_schema \<lparr>dir_exists = False, makedirs_ok = True, source = FileNotFound,
             writable = (\<lambda>p. True)\<rparr>) = Returned
   \<and> snd (split_schema \<lparr>dir_exists = False, makedirs_ok = True, source = FileNotFound,
             writable = (\<lambda>p. True)\<rparr>) = [MadeDirs OUTPUT_DIR, ReadAttempt SOURCE_FILE]"
  using source_unreadable
    [of "\<lparr>dir_exists = False, makedirs_ok = True, source = FileNotFound, writable = (\<lambda>p. True)\<rparr>"]
  by simp

text \<open>
  Claim C5. The scenario of the specification: the Entity block goes to the entities file,
  the Game block to the games file with the fragment before its closing brace, the Query
  block to \<^verbatim>\<open>99-mutations.graphql\<close>, and the enum block to no file.
\<close>

theorem end_to_end_scenario:
  "classify_document
     ''type Entity @model { id: ID! }\<newline>\<newline>type Game @model { id: ID! }\<newline>\<newline>enum Status { A B }\<newline>\<newline>type Query { ping: String }\<newline>''
   = Inr [(''10-entities.graphql'', [''type Entity @model { id: ID! }'']),
          (''20-venues.graphql'', []),
          (''30-games.graphql'', [''type Game @model { id: ID! '' @ GAME_ADDITIONS @ ''}'']),
          (''40-tournaments.graphql'', []),
          (''50-players.graphql'', []),
          (''60-financials.graphql'', []),
          (''80-scrapers.graphql'', []),
          (''85-social.graphql'', []),
          (''90-staff.graphql'', []),
          (''99-mutations.graphql'', [''type Query { ping: String }'']),
          (''00-enums.graphql'', [])]
   \<and> split_schema \<lparr>dir_exists = True, makedirs_ok = True,
        source = Content ''type Entity @model { id: ID! }\<newline>\<newline>type Game @model { id: ID! }\<newline>\<newline>enum Status { A B }\<newline>\<newline>type Query { ping: String }\<newline>'',
        writable = (\<lambda>p. True)\<rparr>
   = (Completed,
      [ReadAttempt ''amplify/backend/api/kingsroom/schema.graphql'',
       Wrote ''amplify/backend/api/kingsroom/schema/10-entities.graphql''
         ''# 10-entities.graphql\<newline># ==========================================\<newline>\<newline>type Entity @model { id: ID! }'',
       Wrote ''amplify/backend/api/kingsroom/schema/20-venues.graphql''
         ''# 20-venues.graphql\<newline># ==========================================\<newline>\<newline>'',
       Wrote ''amplify/backend/api/kingsroom/schema/30-games.graphql''
         (''# 30-games.graphql\<newline># ==========================================\<newline>\<newline>type Game @model { id: ID! ''
            @ GAME_ADDITIONS @ ''}''),
       Wrote ''amplify/backend/api/kingsroom/schema/40-tournaments.graphql''
         ''# 40-tournaments.graphql\<newline># ==========================================\<newline>\<newline>'',
       Wrote ''amplify/backend/api/kingsroom/schema/50-players.graphql''
         ''# 50-players.graphql\<newline># ==========================================\<newline>\<newline>'',
       Wrote ''amplify/backend/api/kingsroom/schema/60-financials.graphql''
         ''# 60-financials.graphql\<newline># ==========================================\<newline>\<newline>'',
       Wrote ''amplify/backend/api/kingsroom/schema/80-scrapers.graphql''
         ''# 80-scrapers.graphql\<newline># ==========================================\<newline>\<newline>'',
       Wrote ''amplify/backend/api/kingsroom/schema/85-social.graphql''
         ''# 85-social.graphql\<newline># ==========================================\<newline>\<newline>'',
       Wrote ''amplify/backend/api/kingsroom/schema/90-staff.graphql''
         ''# 90-staff.graphql\<newline># ==========================================\<newline>\<newline>'',
       Wrote ''amplify/backend/api/kingsroom/schema/99-mutations.graphql''
         ''# 99-mutations.graphql\<newline># ==========================================\<newline>\<newline>type Query { ping: String }''])"
  by code_simp

text \<open>
  Claim C2. Every enum declaration is dropped. The loop body skips a block only when it
  starts with \<^verbatim>\<open>enum\<close> and one space, while the split pattern takes any whitespace after the
  keyword: an enum written with a tab after the keyword is stored in \<^verbatim>\<open>99-mutations.graphql\<close>.
\<close>

theorem enum_with_tab_is_written:
  "classify_document (''enum'' @ [CHR 0x09] @ ''Status { A B }'' @ [newline])
   = Inr [(''10-entities.graphql'', []),
          (''20-venues.graphql'', []),
          (''30-games.graphql'', []),
          (''40-tournaments.graphql'', []),
          (''50-players.graphql'', []),
          (''60-financials.graphql'', []),
          (''80-scrapers.graphql'', []),
          (''85-social.graphql'', []),
          (''90-staff.graphql'', []),
          (''99-mutations.graphql'', [''enum'' @ [CHR 0x09] @ ''Status { A B }'']),
          (''00-enums.graphql'', [])]"
  by code_simp




end
